theory Spec2Isabelle
  imports Main "HOL-Library.Word"
begin

unbundle bit_operations_syntax

section \<open>The NSQ trace-context framing codec (contrib/go-nsq/utils.go)\<close>

text \<open>
  The wrapper frames a message body as
  \<^verbatim>\<open>length of body (4 bytes, big endian) | body | span context (gob)\<close>
  on the send path (\<open>inject\<close>) and takes the frame apart on the receive path
  (\<open>extract\<close>). Both functions are translated from \<^verbatim>\<open>utils.go\<close>.
  Lengths are natural numbers: Go's \<open>int\<close> is taken to be 64 bits wide, so that
  \<open>len(body)\<close>, \<open>4 + bs\<close> and \<open>int(uint32)\<close> are exact, and the only
  wrap-around is the conversion \<open>uint32(bs)\<close>, a \<open>32 word\<close> here.
\<close>

subsection \<open>Data\<close>

type_synonym byte = "8 word"
type_synonym uint32 = "32 word"
type_synonym uint64 = "64 word"

text \<open>
  A Go \<open>error\<close> value: the one this package makes itself with \<open>errors.New\<close>, and the
  errors that come back from the gob codec and from the tracer.
\<close>

datatype error = errors_New string | lib_error string

text \<open>A function of the package either returns its results or panics.\<close>

datatype 'a outcome = Panic | Returns 'a

text \<open>
  \<open>ddtrace.SpanContext\<close> is read through \<open>TraceID()\<close> and \<open>SpanID()\<close>, a
  span through \<open>Context()\<close>; \<open>tracer.TextMapCarrier\<close> is a \<open>map[string]string\<close>.
\<close>

record SpanContext =
  TraceID :: uint64
  SpanID :: uint64

record Span =
  Context :: SpanContext

type_synonym TextMapCarrier = "string \<rightharpoonup> string"

text \<open>
  The tracer and \<open>encoding/gob\<close> are libraries outside this repository. The codec
  reaches them through four calls, which are parameters of the model:
  \<^item> \<open>tracer.Inject(ctx, carrier)\<close> fills the carrier or returns an error;
  \<^item> \<open>tracer.Extract(carrier)\<close> returns a context and an error, each possibly nil,
    and \<open>extract\<close> hands both on as they are;
  \<^item> \<open>gob.NewEncoder(buf).Encode(carrier)\<close> writes the encoding into the (reset)
    buffer or returns an error;
  \<^item> \<open>gob.NewDecoder(bytes.NewBuffer(bs)).Decode(&carrier)\<close> fills the carrier from
    the bytes or returns an error.
\<close>

record collaborators =
  tracer_Inject :: "SpanContext \<Rightarrow> TextMapCarrier \<Rightarrow> error + TextMapCarrier"
  tracer_Extract :: "TextMapCarrier \<Rightarrow> SpanContext option \<times> error option"
  gob_Encode :: "TextMapCarrier \<Rightarrow> error + byte list"
  gob_Decode :: "byte list \<Rightarrow> error + TextMapCarrier"

subsection \<open>Go built-ins and \<open>encoding/binary\<close>\<close>

text \<open>\<open>make([]byte, n)\<close>: \<open>n\<close> zero bytes.\<close>

definition make :: "nat \<Rightarrow> byte list" where
  "make n = replicate n 0"

text \<open>
  \<open>copy(dst, src)\<close> overwrites the first \<open>min(len(dst), len(src))\<close> bytes of
  \<open>dst\<close> and returns how many it copied. The model returns the new \<open>dst\<close> too.
\<close>

definition copy :: "byte list \<Rightarrow> byte list \<Rightarrow> byte list \<times> nat" where
  "copy dst src = (let n = min (length dst) (length src) in (take n src @ drop n dst, n))"

text \<open>
  \<open>binary.BigEndian.PutUint32(b, v)\<close> and \<open>binary.BigEndian.Uint32(b)\<close>; both
  panic (\<open>None\<close>) on a slice shorter than 4.
\<close>

fun PutUint32 :: "byte list \<Rightarrow> uint32 \<Rightarrow> byte list option" where
  "PutUint32 (b0 # b1 # b2 # b3 # rest) v =
     Some (ucast (drop_bit 24 v) # ucast (drop_bit 16 v) # ucast (drop_bit 8 v) # ucast v # rest)"
| "PutUint32 _ v = None"

fun Uint32 :: "byte list \<Rightarrow> uint32 option" where
  "Uint32 (b0 # b1 # b2 # b3 # rest) =
     Some (ucast b3 OR push_bit 8 (ucast b2) OR push_bit 16 (ucast b1) OR push_bit 24 (ucast b0))"
| "Uint32 _ = None"

text \<open>
  Slice expressions. \<open>s[lo:]\<close> panics when \<open>lo > len(s)\<close>. \<open>s[lo:hi]\<close> checks
  \<open>hi\<close> against the capacity of \<open>s\<close>, not its length: \<open>spare\<close> are the bytes of
  the backing array behind the last element of \<open>s\<close>, so that
  \<open>cap(s) = len(s) + len(spare)\<close>.
\<close>

definition slice_from :: "byte list \<Rightarrow> nat \<Rightarrow> byte list option" where
  "slice_from s lo = (if lo \<le> length s then Some (drop lo s) else None)"

definition slice :: "byte list \<Rightarrow> byte list \<Rightarrow> nat \<Rightarrow> nat \<Rightarrow> byte list option" where
  "slice s spare lo hi =
     (if lo \<le> hi \<and> hi \<le> length s + length spare
      then Some (take (hi - lo) (drop lo (s @ spare))) else None)"

text \<open>\<open>[]byte("...")\<close> of an ASCII string literal.\<close>

definition bytes_of :: "string \<Rightarrow> byte list" where
  "bytes_of s = map of_char s"

subsection \<open>\<open>inject\<close>\<close>

text \<open>
  \<^verbatim>\<open>func inject(span tracer.Span, body []byte) ([]byte, error)\<close>.
  The result is the pair Go returns; \<open>None\<close> is \<open>nil\<close>. The slices \<open>bts[i:]\<close>
  and \<open>withspn[i:]\<close> are taken at \<open>i = 4\<close> and \<open>i = 4 + bs\<close>, a panic of either
  is a \<open>Panic\<close> of \<open>inject\<close>. The buffer from the pool is reset by \<open>getBuf\<close>, so
  \<open>buf.Bytes()\<close> is what the encoder wrote.
\<close>

definition inject :: "collaborators \<Rightarrow> Span \<Rightarrow> byte list \<Rightarrow> (byte list option \<times> error option) outcome" where
  "inject K span body =
     (let bs = length body in
      case PutUint32 (make 4) (word_of_nat bs) of
        None \<Rightarrow> Panic
      | Some bsb \<Rightarrow>
          let bts = make (4 + bs);
              (bts, i) = copy bts bsb
          in (case slice_from bts i of
               None \<Rightarrow> Panic
             | Some tail \<Rightarrow>
                 let (tail, n) = copy tail body;
                     bts = take i bts @ tail;
                     i = i + n
                 in if TraceID (Context span) = 0 then Returns (Some bts, None)
                    else (case tracer_Inject K (Context span) Map.empty of
                           Inl err \<Rightarrow> Returns (None, Some err)
                         | Inr carri \<Rightarrow>
                             (case gob_Encode K carri of
                                Inl err \<Rightarrow> Returns (None, Some err)
                              | Inr buf \<Rightarrow>
                                  let withspn = make (length bts + length buf);
                                      (withspn, _) = copy withspn bts
                                  in (case slice_from withspn i of
                                        None \<Rightarrow> Panic
                                      | Some tail \<Rightarrow>
                                          let (tail, _) = copy tail buf
                                          in Returns (Some (take i withspn @ tail), None))))))"

subsection \<open>\<open>extract\<close>\<close>

text \<open>
  \<^verbatim>\<open>func extract(body []byte) (ddtrace.SpanContext, []byte, error)\<close>.
  \<open>spare\<close> is the unused capacity of \<open>body\<close> (see \<open>slice\<close>). The call of
  \<open>log.Println\<close> only prints and is left out.
\<close>

definition "extract" ::
  "collaborators \<Rightarrow> byte list \<Rightarrow> byte list \<Rightarrow>
     (SpanContext option \<times> byte list option \<times> error option) outcome" where
  "extract K body spare =
     (if length body < 4
      then Returns (None, None, Some (errors_New ''length of message body is too small''))
      else (case Uint32 (take 4 body) of
              None \<Rightarrow> Panic
            | Some v \<Rightarrow>
                let bs = unat v in
                (case slice body spare 4 (4 + bs) of
                   None \<Rightarrow> Panic
                 | Some msgbody \<Rightarrow>
                     if 4 + bs = length body then Returns (None, Some msgbody, None)
                     else (case slice_from body (4 + bs) of
                             None \<Rightarrow> Panic
                           | Some rest \<Rightarrow>
                               (case gob_Decode K rest of
                                  Inl err \<Rightarrow> Returns (None, Some body, Some err)
                                | Inr carri \<Rightarrow>
                                    let (spnctx, err) = tracer_Extract K carri
                                    in Returns (spnctx, Some msgbody, err))))))"

subsection \<open>Auxiliary definitions\<close>

text \<open>The four bytes \<open>PutUint32\<close> writes for \<open>v\<close>, most significant first.\<close>

definition be32 :: "uint32 \<Rightarrow> byte list" where
  "be32 v = [ucast (drop_bit 24 v), ucast (drop_bit 16 v), ucast (drop_bit 8 v), ucast v]"

text \<open>
  Test doubles for the two libraries, in the manner of \<open>mocktracer\<close> in
  \<^verbatim>\<open>utils_test.go\<close>. The tracer knows one span context (trace 7, span 9) and
  propagates it under the Datadog header keys; the codec serializes that carrier as
  the bytes of \<open>7,9\<close>, reads \<open>-\<close> as the empty carrier, and rejects everything
  else. They supply concrete inputs; no general theorem below depends on them.
\<close>

definition stub_context :: SpanContext where
  "stub_context = \<lparr>TraceID = 7, SpanID = 9\<rparr>"

definition stub_carrier :: TextMapCarrier where
  "stub_carrier = [''x-datadog-trace-id'' \<mapsto> ''7'', ''x-datadog-parent-id'' \<mapsto> ''9'']"

definition stub_blob :: "byte list" where
  "stub_blob = bytes_of ''7,9''"

definition stub :: collaborators where
  "stub = \<lparr>
     tracer_Inject = (\<lambda>ctx carri.
       if ctx = stub_context then Inr (carri ++ stub_carrier)
       else Inl (lib_error ''invalid span context'')),
     tracer_Extract = (\<lambda>carri.
       if carri ''x-datadog-trace-id'' = Some ''7'' \<and> carri ''x-datadog-parent-id'' = Some ''9''
       then (Some stub_context, None)
       else (None, Some (lib_error ''span context not found''))),
     gob_Encode = (\<lambda>carri.
       if carri ''x-datadog-trace-id'' = Some ''7'' \<and> carri ''x-datadog-parent-id'' = Some ''9''
       then Inr stub_blob
       else Inl (lib_error ''gob: cannot encode'')),
     gob_Decode = (\<lambda>bs.
       if bs = stub_blob then Inr stub_carrier
       else if bs = bytes_of ''-'' then Inr Map.empty
       else Inl (lib_error ''gob: bad data'')) \<rparr>"

text \<open>The same collaborators with an encoder that always fails.\<close>

definition stub_broken_gob :: collaborators where
  "stub_broken_gob = stub\<lparr>gob_Encode := (\<lambda>carri. Inl (lib_error ''gob: cannot encode''))\<rparr>"

text \<open>
  Sample spans: one without an active trace, the one the stub tracer knows, and one
  with a trace the stub tracer cannot inject.
\<close>

definition no_trace :: Span where
  "no_trace = \<lparr>Context = \<lparr>TraceID = 0, SpanID = 0\<rparr>\<rparr>"

definition stub_span :: Span where
  "stub_span = \<lparr>Context = stub_context\<rparr>"

definition other_span :: Span where
  "other_span = \<lparr>Context = \<lparr>TraceID = 5, SpanID = 6\<rparr>\<rparr>"

text \<open>A body of \<open>2 ^ 32\<close> zero bytes (4 GiB), the shortest whose length does not fit the prefix.\<close>

definition huge_body :: "byte list" where
  "huge_body = replicate (2 ^ 32) 0"

section \<open>Facts about the built-ins\<close>

lemma length_be32: "length (be32 v) = 4"
  by (simp add: be32_def)

lemma length_make: "length (make n) = n"
  by (simp add: make_def)

lemma PutUint32_make: "PutUint32 (make 4) v = Some (be32 v)"
  by (simp add: make_def numeral_eq_Suc be32_def)

lemma copy_fits:
  "length src \<le> length dst \<Longrightarrow> copy dst src = (src @ drop (length src) dst, length src)"
  by (simp add: copy_def Let_def min_def)

lemma length_neq: "length xs \<noteq> length ys \<Longrightarrow> xs \<noteq> ys"
  by auto

text \<open>Reading back what \<open>PutUint32\<close> wrote gives the same word: bit by bit, one byte at a time.\<close>

lemma Uint32_be32: "Uint32 (be32 v @ rest) = Some v"
proof -
  have "ucast (ucast v :: byte) OR push_bit 8 (ucast (ucast (drop_bit 8 v) :: byte))
        OR push_bit 16 (ucast (ucast (drop_bit 16 v) :: byte))
        OR push_bit 24 (ucast (ucast (drop_bit 24 v) :: byte)) = v"
  proof (rule bit_word_eqI)
    fix n assume "n < LENGTH(32)"
    then have n: "n < 32" by simp
    consider "n < 8" | "8 \<le> n" "n < 16" | "16 \<le> n" "n < 24" | "24 \<le> n"
      by linarith
    then show "bit (ucast (ucast v :: byte) OR push_bit 8 (ucast (ucast (drop_bit 8 v) :: byte))
        OR push_bit 16 (ucast (ucast (drop_bit 16 v) :: byte))
        OR push_bit 24 (ucast (ucast (drop_bit 24 v) :: byte)) :: uint32) n = bit v n"
      using n by cases (auto simp add: bit_simps)
  qed
  then show ?thesis by (simp add: be32_def)
qed

lemma Uint32_take4_framed: "Uint32 (take 4 (be32 v @ rest)) = Some v"
  using Uint32_be32 [of v "[]"] by (simp add: length_be32)

text \<open>The conversion \<open>uint32(bs)\<close> keeps the length modulo \<open>2 ^ 32\<close>.\<close>

lemma unat_length_prefix: "unat (word_of_nat n :: uint32) = n mod 2 ^ 32"
  by (simp add: unat_of_nat)

section \<open>What \<open>inject\<close> and \<open>extract\<close> compute\<close>

text \<open>
  The two \<open>copy\<close> calls of \<open>inject\<close> fill \<open>bts\<close> with the prefix and the body, the
  next two fill \<open>withspn\<close> with \<open>bts\<close> and the encoded carrier; no slice is out of
  range, so \<open>inject\<close> never panics.
\<close>

lemma inject_frame:
  "inject K span body =
     (if TraceID (Context span) = 0
      then Returns (Some (be32 (word_of_nat (length body)) @ body), None)
      else (case tracer_Inject K (Context span) Map.empty of
              Inl err \<Rightarrow> Returns (None, Some err)
            | Inr carri \<Rightarrow>
               (case gob_Encode K carri of
                  Inl err \<Rightarrow> Returns (None, Some err)
                | Inr buf \<Rightarrow>
                    Returns (Some (be32 (word_of_nat (length body)) @ body @ buf), None))))"
  by (simp add: inject_def PutUint32_make Let_def copy_fits length_make slice_from_def
      length_be32 split: sum.splits)

lemma inject_never_panics: "inject K span body \<noteq> Panic"
  by (simp add: inject_frame split: sum.splits)

lemma inject_zero:
  "TraceID (Context span) = 0 \<Longrightarrow>
   inject K span b = Returns (Some (be32 (word_of_nat (length b)) @ b), None)"
  by (simp add: inject_frame)

lemma inject_success_cases:
  assumes "inject K span b = Returns (Some out, None)"
  shows "(TraceID (Context span) = 0 \<and> out = be32 (word_of_nat (length b)) @ b) \<or>
         (TraceID (Context span) \<noteq> 0 \<and>
          (\<exists>carri buf. tracer_Inject K (Context span) Map.empty = Inr carri \<and>
             gob_Encode K carri = Inr buf \<and> out = be32 (word_of_nat (length b)) @ b @ buf))"
  using assms by (auto simp add: inject_frame split: if_splits sum.splits)

lemma inject_success_shape:
  assumes "inject K span b = Returns (Some out, None)"
  shows "\<exists>buf. out = be32 (word_of_nat (length b)) @ b @ buf"
  using inject_success_cases [OF assms] by auto

text \<open>
  \<open>extract\<close> on an input of at least 4 bytes, by the declared length \<open>unat v\<close>. When
  \<open>4 + unat v\<close> exceeds the length, either \<open>body[4 : 4+bs]\<close> panics (beyond the
  capacity) or, the capacity allowing it, \<open>body[4+bs:]\<close> does (beyond the length).
\<close>

lemma Uint32_take4: "4 \<le> length body \<Longrightarrow> \<exists>v. Uint32 (take 4 body) = Some v"
  by (cases body rule: Uint32.cases) (auto simp add: numeral_eq_Suc)

lemma extract_unfold:
  assumes "4 \<le> length body" "Uint32 (take 4 body) = Some v"
  shows "extract K body spare =
    (if length body < 4 + unat v then Panic
     else if 4 + unat v = length body then Returns (None, Some (drop 4 body), None)
     else case gob_Decode K (drop (4 + unat v) body) of
            Inl err \<Rightarrow> Returns (None, Some body, Some err)
          | Inr carri \<Rightarrow>
              Returns (fst (tracer_Extract K carri), Some (take (unat v) (drop 4 body)),
                       snd (tracer_Extract K carri)))"
  using assms
  by (auto simp add: extract_def Let_def slice_def slice_from_def split: sum.splits prod.splits)

lemma extract_framed:
  "extract K (be32 v @ payload) spare =
    (if length payload < unat v then Panic
     else if unat v = length payload then Returns (None, Some payload, None)
     else case gob_Decode K (drop (unat v) payload) of
            Inl err \<Rightarrow> Returns (None, Some (be32 v @ payload), Some err)
          | Inr carri \<Rightarrow>
              Returns (fst (tracer_Extract K carri), Some (take (unat v) payload),
                       snd (tracer_Extract K carri)))"
proof -
  have "4 \<le> length (be32 v @ payload)" by (simp add: length_be32)
  moreover have "Uint32 (take 4 (be32 v @ payload)) = Some v"
    by (rule Uint32_take4_framed)
  ultimately show ?thesis
    by (simp add: extract_unfold length_be32 split: sum.splits)
qed

section \<open>Facts about the sample inputs\<close>

lemma stub_blob_bytes: "stub_blob = [55, 44, 57]"
  by (simp add: stub_blob_def bytes_of_def)

lemma length_huge_body: "length huge_body = 2 ^ 32"
  by (simp add: huge_body_def)

lemma be32_length_huge: "be32 (word_of_nat (length huge_body)) = [0, 0, 0, 0]"
  by (simp add: length_huge_body be32_def)

lemma be32_zero: "be32 0 = [0, 0, 0, 0]"
  by (simp add: be32_def)

lemma stub_Decode_huge_blob:
  "gob_Decode stub (huge_body @ stub_blob) = Inl (lib_error ''gob: bad data'')"
  by (simp add: stub_def huge_body_def stub_blob_bytes bytes_of_def)

lemma stub_Decode_huge: "gob_Decode stub huge_body = Inl (lib_error ''gob: bad data'')"
proof -
  have "length huge_body \<noteq> length stub_blob" "length huge_body \<noteq> length (bytes_of ''-'')"
    by (simp_all add: length_huge_body stub_blob_bytes bytes_of_def)
  then have "huge_body \<noteq> stub_blob" "huge_body \<noteq> bytes_of ''-''"
    by auto
  then show ?thesis by (simp add: stub_def)
qed

lemma no_trace_zero: "TraceID (Context no_trace) = 0"
  by (simp add: no_trace_def)

lemma stub_span_nonzero: "TraceID (Context stub_span) \<noteq> 0"
  by (simp add: stub_span_def stub_context_def)

lemma stub_span_inject: "tracer_Inject stub (Context stub_span) Map.empty = Inr stub_carrier"
  by (simp add: stub_span_def stub_def)

lemma stub_carrier_encode: "gob_Encode stub stub_carrier = Inr stub_blob"
  by (simp add: stub_def stub_carrier_def)

lemma inject_no_trace_huge:
  "inject stub no_trace huge_body = Returns (Some ([0, 0, 0, 0] @ huge_body), None)"
  by (simp only: inject_zero [OF no_trace_zero] be32_length_huge)

section \<open>The claims\<close>

subsection \<open>Round trip with a trace context\<close>

text \<open>
  C1, as amended. For every span with a non-zero trace identifier and every body \<open>b\<close>
  shorter than \<open>2 ^ 32\<close> bytes (the empty body too): when the tracer injects the
  span's context into a carrier, gob encodes that carrier into a non-empty buffer and
  decodes the buffer back into it, and the tracer extracts from the carrier a context
  with the span's trace and span identifiers, then \<open>inject\<close> returns a frame and no
  error, and \<open>extract\<close> of that frame returns a context with the span's \<open>TraceID\<close>
  and \<open>SpanID\<close>, the body \<open>b\<close>, and no error, whatever the capacity of the frame.
\<close>

theorem roundtrip_with_context:
  assumes "TraceID (Context span) \<noteq> 0" and "length b < 2 ^ 32"
    and "tracer_Inject K (Context span) Map.empty = Inr carri"
    and "gob_Encode K carri = Inr buf" and "buf \<noteq> []"
    and "gob_Decode K buf = Inr carri"
    and "tracer_Extract K carri = (Some ctx, None)"
    and "TraceID ctx = TraceID (Context span)" and "SpanID ctx = SpanID (Context span)"
  shows "\<exists>framed ctx'. inject K span b = Returns (Some framed, None) \<and>
           extract K framed spare = Returns (Some ctx', Some b, None) \<and>
           TraceID ctx' = TraceID (Context span) \<and> SpanID ctx' = SpanID (Context span)"
  using assms
  by (simp add: inject_frame extract_framed unat_length_prefix)

text \<open>The round trip of \<open>TestInject\<close>, with the stub tracer in place of \<open>mocktracer\<close>.\<close>

theorem roundtrip_with_context_witness:
  "TraceID (Context stub_span) \<noteq> 0 \<and> length (bytes_of ''test data'') < 2 ^ 32 \<and>
   tracer_Inject stub (Context stub_span) Map.empty = Inr stub_carrier \<and>
   gob_Encode stub stub_carrier = Inr stub_blob \<and> stub_blob \<noteq> [] \<and>
   gob_Decode stub stub_blob = Inr stub_carrier \<and>
   tracer_Extract stub stub_carrier = (Some stub_context, None) \<and>
   (\<exists>framed ctx'. inject stub stub_span (bytes_of ''test data'') = Returns (Some framed, None) \<and>
      extract stub framed [] = Returns (Some ctx', Some (bytes_of ''test data''), None) \<and>
      TraceID ctx' = TraceID (Context stub_span) \<and> SpanID ctx' = SpanID (Context stub_span))"
proof -
  have h: "TraceID (Context stub_span) \<noteq> 0" "length (bytes_of ''test data'') < 2 ^ 32"
    "tracer_Inject stub (Context stub_span) Map.empty = Inr stub_carrier"
    "gob_Encode stub stub_carrier = Inr stub_blob" "stub_blob \<noteq> []"
    "gob_Decode stub stub_blob = Inr stub_carrier"
    "tracer_Extract stub stub_carrier = (Some stub_context, None)"
    "TraceID stub_context = TraceID (Context stub_span)"
    "SpanID stub_context = SpanID (Context stub_span)"
    by (simp_all add: stub_span_def stub_context_def stub_def stub_carrier_def
        stub_blob_bytes bytes_of_def)
  show ?thesis
    using h roundtrip_with_context [OF h, of "[]"] by simp
qed

text \<open>
  The claim as stated, for every body, fails on a body of \<open>2 ^ 32\<close> bytes: the prefix
  is \<open>[0, 0, 0, 0]\<close>, so \<open>extract\<close> declares an empty body, hands the body and the
  carrier bytes together to the gob decoder, and returns the decoder's error with the
  whole frame as the body. With a decoder that accepts these bytes the body returned
  would be the empty slice; the body \<open>b\<close> is returned in neither case.
\<close>

theorem roundtrip_with_context_counterexample:
  "TraceID (Context stub_span) \<noteq> 0 \<and>
   inject stub stub_span huge_body = Returns (Some ([0, 0, 0, 0] @ huge_body @ stub_blob), None) \<and>
   extract stub ([0, 0, 0, 0] @ huge_body @ stub_blob) [] =
     Returns (None, Some ([0, 0, 0, 0] @ huge_body @ stub_blob), Some (lib_error ''gob: bad data''))"
proof -
  have i: "inject stub stub_span huge_body =
      Returns (Some ([0, 0, 0, 0] @ huge_body @ stub_blob), None)"
    using stub_span_nonzero stub_span_inject stub_carrier_encode
    by (simp add: inject_frame be32_length_huge)
  have "extract stub (be32 0 @ huge_body @ stub_blob) [] =
     Returns (None, Some (be32 0 @ huge_body @ stub_blob), Some (lib_error ''gob: bad data''))"
    by (simp add: extract_framed length_huge_body stub_Decode_huge_blob)
  then show ?thesis using stub_span_nonzero i by (simp add: be32_zero)
qed

subsection \<open>Declared length beyond the input\<close>

text \<open>
  C2. The claim asks for an error return when the prefix declares more body bytes than
  the input holds. \<open>extract\<close> has no such check: for every input of at least 4 bytes
  whose prefix declares \<open>N\<close> with \<open>4 + N\<close> above the input's length, it panics with
  a slice bound out of range, whatever the capacity of the input and whatever the
  collaborators do. Only the first slice, \<open>body[:4]\<close>, is guarded by a length check.
\<close>

theorem extract_panics_on_short_body:
  assumes "4 \<le> length body" and "Uint32 (take 4 body) = Some N"
    and "length body < 4 + unat N"
  shows "extract K body spare = Panic"
  using assms by (simp add: extract_unfold)

text \<open>A prefix declaring 5 bytes, followed by 2.\<close>

theorem extract_panics_on_short_body_witness:
  "4 \<le> length [0, 0, 0, 5, 1, 2 :: byte] \<and> Uint32 (take 4 [0, 0, 0, 5, 1, 2]) = Some 5 \<and>
   length [0, 0, 0, 5, 1, 2 :: byte] < 4 + unat (5 :: uint32) \<and>
   extract stub [0, 0, 0, 5, 1, 2] [] = Panic"
  using extract_panics_on_short_body [of "[0, 0, 0, 5, 1, 2]" 5 stub "[]"] by simp

subsection \<open>Round trip without a trace context\<close>

text \<open>
  C3, as amended. For every span whose trace identifier is zero and every body \<open>b\<close>,
  \<open>inject\<close> returns no error and a frame of exactly \<open>4 + len(b)\<close> bytes, the body
  after the 4 bytes of the prefix and nothing behind it; and for every such body
  shorter than \<open>2 ^ 32\<close> bytes \<open>extract\<close> of that frame returns no context, the
  body \<open>b\<close>, and no error.
\<close>

theorem roundtrip_without_context:
  assumes "TraceID (Context span) = 0"
  shows "\<exists>framed. inject K span b = Returns (Some framed, None) \<and>
           length framed = 4 + length b \<and> drop 4 framed = b \<and>
           (length b < 2 ^ 32 \<longrightarrow> extract K framed spare = Returns (None, Some b, None))"
  using assms
  by (simp add: inject_zero length_be32 extract_framed unat_length_prefix)

theorem roundtrip_without_context_witness:
  "TraceID (Context no_trace) = 0 \<and>
   (\<exists>framed. inject stub no_trace (bytes_of ''test data'') = Returns (Some framed, None) \<and>
      length framed = 4 + length (bytes_of ''test data'') \<and> drop 4 framed = bytes_of ''test data'' \<and>
      (length (bytes_of ''test data'') < 2 ^ 32 \<longrightarrow>
         extract stub framed [] = Returns (None, Some (bytes_of ''test data''), None)))"
  using roundtrip_without_context [of no_trace stub "bytes_of ''test data''" "[]"]
  by (simp add: no_trace_def)

text \<open>
  On a body of \<open>2 ^ 32\<close> bytes the second half of the claim fails: the frame has the
  prefix \<open>[0, 0, 0, 0]\<close>, and \<open>extract\<close> takes the body for a context blob.
\<close>

theorem roundtrip_without_context_counterexample:
  "TraceID (Context no_trace) = 0 \<and>
   inject stub no_trace huge_body = Returns (Some ([0, 0, 0, 0] @ huge_body), None) \<and>
   extract stub ([0, 0, 0, 0] @ huge_body) [] =
     Returns (None, Some ([0, 0, 0, 0] @ huge_body), Some (lib_error ''gob: bad data''))"
proof -
  have "extract stub (be32 0 @ huge_body) [] =
     Returns (None, Some (be32 0 @ huge_body), Some (lib_error ''gob: bad data''))"
    by (simp add: extract_framed length_huge_body stub_Decode_huge)
  then show ?thesis using no_trace_zero inject_no_trace_huge by (simp add: be32_zero)
qed

subsection \<open>Trailing bytes that are no carrier\<close>

text \<open>
  C4. For every input longer than 4 plus the length \<open>N\<close> its prefix declares, whose
  bytes from \<open>4 + N\<close> on the gob decoder rejects, \<open>extract\<close> returns the decoder's
  error with the whole input as the body (and no context), not the slice
  \<open>body[4 : 4+N]\<close>.
\<close>

theorem extract_bad_carrier_returns_input:
  assumes "Uint32 (take 4 body) = Some N"
    and "4 + unat N < length body"
    and "gob_Decode K (drop (4 + unat N) body) = Inl err"
  shows "extract K body spare = Returns (None, Some body, Some err)"
proof -
  from assms(2) have "4 \<le> length body" by simp
  with assms show ?thesis by (simp add: extract_unfold)
qed

theorem extract_bad_carrier_returns_input_witness:
  "Uint32 (take 4 [0, 0, 0, 2, 1, 2, 3]) = Some 2 \<and>
   4 + unat (2 :: uint32) < length [0, 0, 0, 2, 1, 2, 3 :: byte] \<and>
   gob_Decode stub (drop (4 + unat (2 :: uint32)) [0, 0, 0, 2, 1, 2, 3]) =
     Inl (lib_error ''gob: bad data'') \<and>
   extract stub [0, 0, 0, 2, 1, 2, 3] [] =
     Returns (None, Some [0, 0, 0, 2, 1, 2, 3], Some (lib_error ''gob: bad data''))"
proof -
  have h: "Uint32 (take 4 [0, 0, 0, 2, 1, 2, 3]) = Some 2"
    "4 + unat (2 :: uint32) < length [0, 0, 0, 2, 1, 2, 3 :: byte]"
    "gob_Decode stub (drop (4 + unat (2 :: uint32)) [0, 0, 0, 2, 1, 2, 3]) =
       Inl (lib_error ''gob: bad data'')"
    by (simp_all add: stub_def stub_blob_bytes bytes_of_def)
  show ?thesis using h extract_bad_carrier_returns_input [OF h, of "[]"] by simp
qed

subsection \<open>Inputs shorter than the prefix\<close>

text \<open>
  C5. For every input of 0, 1, 2 or 3 bytes \<open>extract\<close> returns the error
  \<open>length of message body is too small\<close>, with no body and no context.
\<close>

theorem extract_too_small:
  assumes "length body < 4"
  shows "extract K body spare =
    Returns (None, None, Some (errors_New ''length of message body is too small''))"
  using assms by (simp add: extract_def)

theorem extract_too_small_witness:
  "length [0, 0, 1 :: byte] < 4 \<and>
   extract stub [0, 0, 1] [] =
     Returns (None, None, Some (errors_New ''length of message body is too small''))"
  using extract_too_small [of "[0, 0, 1]" stub "[]"] by simp

subsection \<open>The length prefix and the body in the frame\<close>

text \<open>
  C6, as amended. For every span and every body \<open>b\<close>, when \<open>inject\<close> succeeds its
  output begins with a 4-byte big-endian unsigned integer equal to \<open>len(b)\<close> modulo
  \<open>2 ^ 32\<close>, which is \<open>len(b)\<close> for every body shorter than \<open>2 ^ 32\<close> bytes,
  immediately followed by the bytes of \<open>b\<close>; for the 12-byte body \<open>hello, world\<close>
  and a non-zero trace identifier the output is \<open>[0, 0, 0, 12]\<close>, then the body,
  then the bytes gob encoded the carrier into.
\<close>

theorem inject_prefix_and_body:
  assumes "inject K span b = Returns (Some out, None)"
  shows "(\<exists>w. Uint32 (take 4 out) = Some w \<and> unat w = length b mod 2 ^ 32 \<and>
              (length b < 2 ^ 32 \<longrightarrow> unat w = length b)) \<and>
         take (length b) (drop 4 out) = b \<and>
         (b = bytes_of ''hello, world'' \<and> TraceID (Context span) \<noteq> 0 \<longrightarrow>
            (\<exists>carri buf. tracer_Inject K (Context span) Map.empty = Inr carri \<and>
               gob_Encode K carri = Inr buf \<and>
               out = [0, 0, 0, 12] @ bytes_of ''hello, world'' @ buf))"
proof -
  from inject_success_shape [OF assms] obtain buf where
    out: "out = be32 (word_of_nat (length b)) @ b @ buf" by blast
  have "Uint32 (take 4 out) = Some (word_of_nat (length b))"
    unfolding out by (rule Uint32_take4_framed)
  then have p: "\<exists>w. Uint32 (take 4 out) = Some w \<and> unat w = length b mod 2 ^ 32 \<and>
              (length b < 2 ^ 32 \<longrightarrow> unat w = length b)"
    by (simp add: unat_length_prefix)
  have q: "take (length b) (drop 4 out) = b"
    by (simp add: out length_be32)
  have r: "\<exists>carri buf. tracer_Inject K (Context span) Map.empty = Inr carri \<and>
               gob_Encode K carri = Inr buf \<and>
               out = [0, 0, 0, 12] @ bytes_of ''hello, world'' @ buf"
    if "b = bytes_of ''hello, world''" "TraceID (Context span) \<noteq> 0"
  proof -
    have "be32 (word_of_nat (length b)) = [0, 0, 0, 12]"
      using that(1) by (simp add: bytes_of_def be32_def)
    then show ?thesis
      using inject_success_cases [OF assms] that by auto
  qed
  from p q r show ?thesis by blast
qed

theorem inject_prefix_and_body_witness:
  "inject stub stub_span (bytes_of ''hello, world'') =
     Returns (Some ([0, 0, 0, 12] @ bytes_of ''hello, world'' @ stub_blob), None) \<and>
   (\<exists>w. Uint32 (take 4 ([0, 0, 0, 12] @ bytes_of ''hello, world'' @ stub_blob)) = Some w \<and>
        unat w = length (bytes_of ''hello, world'') mod 2 ^ 32 \<and>
        (length (bytes_of ''hello, world'') < 2 ^ 32 \<longrightarrow>
           unat w = length (bytes_of ''hello, world''))) \<and>
   take (length (bytes_of ''hello, world''))
     (drop 4 ([0, 0, 0, 12] @ bytes_of ''hello, world'' @ stub_blob)) = bytes_of ''hello, world'' \<and>
   TraceID (Context stub_span) \<noteq> 0 \<and>
   (\<exists>carri buf. tracer_Inject stub (Context stub_span) Map.empty = Inr carri \<and>
      gob_Encode stub carri = Inr buf \<and>
      [0, 0, 0, 12] @ bytes_of ''hello, world'' @ stub_blob =
        [0, 0, 0, 12] @ bytes_of ''hello, world'' @ buf)"
proof -
  have "be32 (word_of_nat (length (bytes_of ''hello, world''))) = [0, 0, 0, 12]"
    by (simp add: bytes_of_def be32_def)
  then have h: "inject stub stub_span (bytes_of ''hello, world'') =
     Returns (Some ([0, 0, 0, 12] @ bytes_of ''hello, world'' @ stub_blob), None)"
    using stub_span_nonzero stub_span_inject stub_carrier_encode by (simp add: inject_frame)
  show ?thesis
    using h stub_span_nonzero inject_prefix_and_body [OF h] by blast
qed

text \<open>
  The prefix of a body of \<open>2 ^ 32\<close> bytes reads 0, not the length of the body.
\<close>

theorem inject_prefix_and_body_counterexample:
  "inject stub no_trace huge_body = Returns (Some ([0, 0, 0, 0] @ huge_body), None) \<and>
   Uint32 (take 4 ([0, 0, 0, 0] @ huge_body)) = Some 0 \<and>
   unat (0 :: uint32) \<noteq> length huge_body"
  using inject_no_trace_huge by (simp add: length_huge_body)

subsection \<open>Failing serialization\<close>

text \<open>
  C7. For every span with a non-zero trace identifier and every body: if
  \<open>tracer.Inject\<close> returns an error, or it fills the carrier and the gob encoder
  returns an error, then \<open>inject\<close> returns that error and \<open>nil\<close> for the frame; the
  prefix and body already assembled are not returned.
\<close>

theorem inject_serialization_failure:
  assumes "TraceID (Context span) \<noteq> 0"
    and "tracer_Inject K (Context span) Map.empty = Inl err \<or>
         (\<exists>carri. tracer_Inject K (Context span) Map.empty = Inr carri \<and>
                  gob_Encode K carri = Inl err)"
  shows "inject K span body = Returns (None, Some err)"
  using assms by (auto simp add: inject_frame)

text \<open>Once with a tracer that refuses the context, once with an encoder that fails.\<close>

theorem inject_serialization_failure_witness:
  "TraceID (Context other_span) \<noteq> 0 \<and>
   tracer_Inject stub (Context other_span) Map.empty = Inl (lib_error ''invalid span context'') \<and>
   inject stub other_span (bytes_of ''test data'') =
     Returns (None, Some (lib_error ''invalid span context'')) \<and>
   TraceID (Context stub_span) \<noteq> 0 \<and>
   tracer_Inject stub_broken_gob (Context stub_span) Map.empty = Inr stub_carrier \<and>
   gob_Encode stub_broken_gob stub_carrier = Inl (lib_error ''gob: cannot encode'') \<and>
   inject stub_broken_gob stub_span (bytes_of ''test data'') =
     Returns (None, Some (lib_error ''gob: cannot encode''))"
proof -
  have a: "TraceID (Context other_span) \<noteq> 0"
    "tracer_Inject stub (Context other_span) Map.empty = Inl (lib_error ''invalid span context'')"
    by (simp_all add: other_span_def stub_def stub_context_def)
  have b: "TraceID (Context stub_span) \<noteq> 0"
    "tracer_Inject stub_broken_gob (Context stub_span) Map.empty = Inr stub_carrier"
    "gob_Encode stub_broken_gob stub_carrier = Inl (lib_error ''gob: cannot encode'')"
    by (simp_all add: stub_span_def stub_def stub_context_def stub_broken_gob_def)
  show ?thesis
    using a b
      inject_serialization_failure [of other_span stub "lib_error ''invalid span context''"
        "bytes_of ''test data''"]
      inject_serialization_failure [of stub_span stub_broken_gob
        "lib_error ''gob: cannot encode''" "bytes_of ''test data''"]
    by simp
qed

subsection \<open>Failing reconstruction of the context\<close>

text \<open>
  C8. For every input longer than 4 plus the length \<open>N\<close> its prefix declares, whose
  bytes from \<open>4 + N\<close> on gob decodes into a carrier from which \<open>tracer.Extract\<close>
  returns no context and an error, \<open>extract\<close> returns the body slice
  \<open>body[4 : 4+N]\<close>, no context, and that error.
\<close>

theorem extract_reconstruction_failure_keeps_body:
  assumes "Uint32 (take 4 body) = Some N"
    and "4 + unat N < length body"
    and "gob_Decode K (drop (4 + unat N) body) = Inr carri"
    and "tracer_Extract K carri = (None, Some err)"
  shows "extract K body spare = Returns (None, Some (take (unat N) (drop 4 body)), Some err)"
proof -
  from assms(2) have "4 \<le> length body" by simp
  with assms show ?thesis by (simp add: extract_unfold)
qed

theorem extract_reconstruction_failure_keeps_body_witness:
  "Uint32 (take 4 [0, 0, 0, 2, 1, 2, 45]) = Some 2 \<and>
   4 + unat (2 :: uint32) < length [0, 0, 0, 2, 1, 2, 45 :: byte] \<and>
   gob_Decode stub (drop (4 + unat (2 :: uint32)) [0, 0, 0, 2, 1, 2, 45]) = Inr Map.empty \<and>
   tracer_Extract stub Map.empty = (None, Some (lib_error ''span context not found'')) \<and>
   extract stub [0, 0, 0, 2, 1, 2, 45] [] =
     Returns (None, Some [1, 2], Some (lib_error ''span context not found''))"
proof -
  have h: "Uint32 (take 4 [0, 0, 0, 2, 1, 2, 45]) = Some 2"
    "4 + unat (2 :: uint32) < length [0, 0, 0, 2, 1, 2, 45 :: byte]"
    "gob_Decode stub (drop (4 + unat (2 :: uint32)) [0, 0, 0, 2, 1, 2, 45]) = Inr Map.empty"
    "tracer_Extract stub Map.empty = (None, Some (lib_error ''span context not found''))"
    by (simp_all add: stub_def stub_blob_bytes bytes_of_def)
  show ?thesis
    using h extract_reconstruction_failure_keeps_body [OF h, of "[]"] by simp
qed

subsection \<open>Determinism without a trace context\<close>

text \<open>
  C9. For every body \<open>b\<close>, any two calls of \<open>inject\<close> with spans whose trace
  identifier is zero return the same result, whatever the spans otherwise are and
  whatever the tracer and the gob codec would do: the output depends on \<open>b\<close> only.
\<close>

theorem inject_no_context_deterministic:
  assumes "TraceID (Context span1) = 0" and "TraceID (Context span2) = 0"
  shows "inject K1 span1 b = inject K2 span2 b"
  using assms by (simp add: inject_zero)

theorem inject_no_context_deterministic_witness:
  "TraceID (Context no_trace) = 0 \<and>
   TraceID (Context \<lparr>Context = \<lparr>TraceID = 0, SpanID = 3\<rparr>\<rparr>) = 0 \<and>
   inject stub no_trace (bytes_of ''test data'') =
     inject stub_broken_gob \<lparr>Context = \<lparr>TraceID = 0, SpanID = 3\<rparr>\<rparr> (bytes_of ''test data'')"
  using inject_no_context_deterministic [of no_trace "\<lparr>Context = \<lparr>TraceID = 0, SpanID = 3\<rparr>\<rparr>"
      stub "bytes_of ''test data''" stub_broken_gob]
  by (simp add: no_trace_def)

subsection \<open>The prefix of a long body\<close>

text \<open>
  C10, as amended. Whenever the tracer and the gob codec do not fail (they are not
  asked when the trace identifier is zero), \<open>inject\<close> returns a frame whose prefix is
  \<open>len(body)\<close> modulo \<open>2 ^ 32\<close>. For every body shorter than \<open>2 ^ 32\<close> bytes the
  prefix is the length of the body. For every body of \<open>2 ^ 32\<close> bytes or more it
  is strictly smaller: \<open>len(framed) \<ge> 4 + prefix\<close> holds all the same, as it does
  for every frame, but the bytes the prefix delimits, \<open>framed[4 : 4+prefix]\<close>, are
  not the body, and \<open>extract\<close> of the frame returns, never with the original body,
  whatever the collaborators do.
\<close>

theorem length_prefix_wraps:
  assumes "TraceID (Context span) = 0 \<or>
           (\<exists>carri buf. tracer_Inject K (Context span) Map.empty = Inr carri \<and>
                         gob_Encode K carri = Inr buf)"
  shows "\<exists>framed w. inject K span b = Returns (Some framed, None) \<and>
           Uint32 (take 4 framed) = Some w \<and> unat w = length b mod 2 ^ 32 \<and>
           4 + unat w \<le> length framed \<and>
           (length b < 2 ^ 32 \<longrightarrow> unat w = length b) \<and>
           (2 ^ 32 \<le> length b \<longrightarrow>
              unat w < length b \<and> take (unat w) (drop 4 framed) \<noteq> b \<and>
              (\<exists>ctx body' err. extract K framed spare = Returns (ctx, body', err) \<and>
                 body' \<noteq> Some b))"
proof -
  define w :: uint32 where "w = word_of_nat (length b)"
  from assms obtain buf where
    inj: "inject K span b = Returns (Some (be32 w @ b @ buf), None)"
    unfolding w_def by (cases "TraceID (Context span) = 0") (auto simp add: inject_frame)
  define framed where "framed = be32 w @ b @ buf"
  have w: "unat w = length b mod 2 ^ 32" by (simp add: w_def unat_length_prefix)
  have u: "Uint32 (take 4 framed) = Some w"
    unfolding framed_def by (rule Uint32_take4_framed)
  have le: "unat w \<le> length b" using w by simp
  then have inv: "4 + unat w \<le> length framed"
    by (simp add: framed_def length_be32)
  have small: "unat w = length b" if "length b < 2 ^ 32" using that w by simp
  have big: "unat w < length b \<and> take (unat w) (drop 4 framed) \<noteq> b \<and>
      (\<exists>ctx body' err. extract K framed spare = Returns (ctx, body', err) \<and> body' \<noteq> Some b)"
    if "2 ^ 32 \<le> length b"
  proof -
    have "unat w < 2 ^ 32" using w by simp
    with that have lt: "unat w < length b" by linarith
    have "length (take (unat w) (drop 4 framed)) \<noteq> length b"
      using lt by (simp add: framed_def length_be32)
    then have a: "take (unat w) (drop 4 framed) \<noteq> b" by (rule length_neq)
    have "length framed \<noteq> length b"
      by (simp add: framed_def length_be32)
    then have ne1: "framed \<noteq> b" by (rule length_neq)
    have "length (take (unat w) (b @ buf)) \<noteq> length b"
      using lt by simp
    then have ne2: "take (unat w) (b @ buf) \<noteq> b" by (rule length_neq)
    have "\<exists>ctx body' err. extract K framed spare = Returns (ctx, body', err) \<and> body' \<noteq> Some b"
      using lt ne1 ne2 unfolding framed_def
      by (cases "gob_Decode K (drop (unat w) (b @ buf))") (auto simp add: extract_framed)
    with lt a show ?thesis by simp
  qed
  from inj u w inv small big show ?thesis
    unfolding framed_def [symmetric] by blast
qed

text \<open>
  A 9-byte body without and with a trace context, and the body of \<open>2 ^ 32\<close> bytes.
\<close>

theorem length_prefix_wraps_witness:
  "TraceID (Context no_trace) = 0 \<and>
   (\<exists>framed w. inject stub no_trace (bytes_of ''test data'') = Returns (Some framed, None) \<and>
      framed = [0, 0, 0, 9] @ bytes_of ''test data'' \<and>
      Uint32 (take 4 framed) = Some w \<and> unat w = length (bytes_of ''test data'')) \<and>
   (\<exists>carri buf. tracer_Inject stub (Context stub_span) Map.empty = Inr carri \<and>
      gob_Encode stub carri = Inr buf) \<and>
   (\<exists>framed w. inject stub stub_span (bytes_of ''test data'') = Returns (Some framed, None) \<and>
      framed = [0, 0, 0, 9] @ bytes_of ''test data'' @ stub_blob \<and>
      Uint32 (take 4 framed) = Some w \<and> unat w = length (bytes_of ''test data'')) \<and>
   2 ^ 32 \<le> length huge_body \<and>
   (\<exists>framed w. inject stub no_trace huge_body = Returns (Some framed, None) \<and>
      framed = [0, 0, 0, 0] @ huge_body \<and>
      Uint32 (take 4 framed) = Some w \<and> unat w < length huge_body \<and>
      4 + unat w \<le> length framed \<and>
      take (unat w) (drop 4 framed) \<noteq> huge_body \<and>
      (\<exists>ctx body' err. extract stub framed [] = Returns (ctx, body', err) \<and>
         body' \<noteq> Some huge_body))"
proof -
  have p: "be32 (word_of_nat (length (bytes_of ''test data''))) = [0, 0, 0, 9]"
    by (simp add: bytes_of_def be32_def)
  have s: "inject stub no_trace (bytes_of ''test data'') =
      Returns (Some ([0, 0, 0, 9] @ bytes_of ''test data''), None)"
    using p by (simp add: inject_zero [OF no_trace_zero])
  have c: "\<exists>carri buf. tracer_Inject stub (Context stub_span) Map.empty = Inr carri \<and>
      gob_Encode stub carri = Inr buf"
    using stub_span_inject stub_carrier_encode by blast
  have t: "inject stub stub_span (bytes_of ''test data'') =
      Returns (Some ([0, 0, 0, 9] @ bytes_of ''test data'' @ stub_blob), None)"
    using p stub_span_nonzero stub_span_inject stub_carrier_encode by (simp add: inject_frame)
  note h = inject_no_trace_huge
  have l: "length (bytes_of ''test data'') < 2 ^ 32" "2 ^ 32 \<le> length huge_body"
    by (simp_all add: bytes_of_def length_huge_body)
  have z: "TraceID (Context no_trace) = 0 \<or>
           (\<exists>carri buf. tracer_Inject stub (Context no_trace) Map.empty = Inr carri \<and>
                         gob_Encode stub carri = Inr buf)"
    using no_trace_zero by simp
  have z': "TraceID (Context stub_span) = 0 \<or>
           (\<exists>carri buf. tracer_Inject stub (Context stub_span) Map.empty = Inr carri \<and>
                         gob_Encode stub carri = Inr buf)"
    using c by simp
  from length_prefix_wraps [OF z, of "bytes_of ''test data''" "[]"] s l(1)
  have A: "\<exists>framed w. inject stub no_trace (bytes_of ''test data'') = Returns (Some framed, None) \<and>
      framed = [0, 0, 0, 9] @ bytes_of ''test data'' \<and>
      Uint32 (take 4 framed) = Some w \<and> unat w = length (bytes_of ''test data'')"
    by auto
  from length_prefix_wraps [OF z', of "bytes_of ''test data''" "[]"] t l(1)
  have B: "\<exists>framed w. inject stub stub_span (bytes_of ''test data'') = Returns (Some framed, None) \<and>
      framed = [0, 0, 0, 9] @ bytes_of ''test data'' @ stub_blob \<and>
      Uint32 (take 4 framed) = Some w \<and> unat w = length (bytes_of ''test data'')"
    by auto
  from length_prefix_wraps [OF z, of huge_body "[]"] h l(2)
  have C: "\<exists>framed w. inject stub no_trace huge_body = Returns (Some framed, None) \<and>
      framed = [0, 0, 0, 0] @ huge_body \<and>
      Uint32 (take 4 framed) = Some w \<and> unat w < length huge_body \<and>
      4 + unat w \<le> length framed \<and>
      take (unat w) (drop 4 framed) \<noteq> huge_body \<and>
      (\<exists>ctx body' err. extract stub framed [] = Returns (ctx, body', err) \<and>
         body' \<noteq> Some huge_body)"
    by auto
  from no_trace_zero A c B l(2) C show ?thesis by blast
qed

text \<open>
  The claim as stated has the frame of a long body violate
  \<open>len(framed) \<ge> 4 + length_prefix\<close>. On the body of \<open>2 ^ 32\<close> bytes the prefix
  reads 0 and the frame has \<open>4 + 2 ^ 32\<close> bytes: the inequality holds, for the
  prefix written and for the true length of the body alike.
\<close>

theorem length_prefix_wraps_counterexample:
  "2 ^ 32 \<le> length huge_body \<and>
   inject stub no_trace huge_body = Returns (Some ([0, 0, 0, 0] @ huge_body), None) \<and>
   Uint32 (take 4 ([0, 0, 0, 0] @ huge_body)) = Some 0 \<and>
   4 + unat (0 :: uint32) \<le> length ([0, 0, 0, 0] @ huge_body) \<and>
   4 + length huge_body \<le> length ([0, 0, 0, 0] @ huge_body)"
  using inject_no_trace_huge by (simp add: length_huge_body)

end
